theory Spec2Isabelle
  imports Main "HOL-Library.Word"
begin

section \<open>Strings\<close>

text \<open>
  A JavaScript string is a sequence of UTF-16 code units. The regular expressions of
  \<^verbatim>\<open>string-to-path-array.ts\<close> carry no flag, so they match code unit by code unit.
  \<open>str\<close> writes an ASCII literal as such a sequence.
\<close>

type_synonym code_unit = "16 word"
type_synonym jsstring = "code_unit list"

definition str :: "string \<Rightarrow> jsstring" where
  "str s = map (\<lambda>c. of_nat (of_char c)) s"

definition DOT :: code_unit where "DOT = 0x2E"
definition LBRACKET :: code_unit where "LBRACKET = 0x5B"
definition RBRACKET :: code_unit where "RBRACKET = 0x5D"

text \<open>
  Without the \<^verbatim>\<open>s\<close> flag the pattern \<^verbatim>\<open>.\<close> matches every code unit but the four line
  terminators LF, CR, U+2028 and U+2029.
\<close>

definition isLineTerminator :: "code_unit \<Rightarrow> bool" where
  "isLineTerminator c \<longleftrightarrow> c = 0x0A \<or> c = 0x0D \<or> c = 0x2028 \<or> c = 0x2029"

text \<open>\<^verbatim>\<open>.*$\<close> at the end of a pattern: the remainder holds no line terminator.\<close>

definition restMatches :: "jsstring \<Rightarrow> bool" where
  "restMatches rest \<longleftrightarrow> list_all (\<lambda>c. \<not> isLineTerminator c) rest"

text \<open>\<^verbatim>\<open>\d\<close> is \<^verbatim>\<open>[0-9]\<close>.\<close>

definition isDigit :: "code_unit \<Rightarrow> bool" where
  "isDigit c \<longleftrightarrow> 0x30 \<le> c \<and> c \<le> 0x39"

text \<open>The class \<^verbatim>\<open>[^\.\[\]]\<close>; a negated class does match line terminators.\<close>

definition isNameUnit :: "code_unit \<Rightarrow> bool" where
  "isNameUnit c \<longleftrightarrow> c \<noteq> DOT \<and> c \<noteq> LBRACKET \<and> c \<noteq> RBRACKET"

section \<open>The path parser (string-to-path-array.ts)\<close>

text \<open>
  A segment is a string or a number in the source (\<^verbatim>\<open>Array<string | number>\<close>).
  \<open>Index n\<close> is the number that \<^verbatim>\<open>Number(key)\<close> gives for a key of decimal digits;
  the model keeps the integer the digits denote, which is the JavaScript number itself
  up to \<open>2^53\<close>.
\<close>

datatype segment = Name jsstring | Index nat

text \<open>
  \<^verbatim>\<open>BRACKET_NOTATION_REGEX = /^\[(.+?)\](.*)$/\<close>. After the opening bracket the lazy
  group grows one code unit at a time; as soon as it is non-empty and the next unit is
  \<^verbatim>\<open>]\<close> the matcher tries to finish with \<^verbatim>\<open>(.*)$\<close>, and on failure it goes on growing
  the group. \<open>bracketScan key cs\<close> is that search with \<open>key\<close> the group so far.
\<close>

fun bracketScan :: "jsstring \<Rightarrow> jsstring \<Rightarrow> (jsstring \<times> jsstring) option" where
  "bracketScan key [] = None"
| "bracketScan key (c # cs) =
     (if key \<noteq> [] \<and> c = RBRACKET \<and> restMatches cs then Some (key, cs)
      else if isLineTerminator c then None
      else bracketScan (key @ [c]) cs)"

definition bracketMatch :: "jsstring \<Rightarrow> (jsstring \<times> jsstring) option" where
  "bracketMatch currentPath =
     (case currentPath of
        [] \<Rightarrow> None
      | c # cs \<Rightarrow> if c = LBRACKET then bracketScan [] cs else None)"

text \<open>
  \<^verbatim>\<open>DOT_NOTATION_REGEX = /^\.?([^\.\[\]]+)(.*)$/\<close>. The optional dot is taken when it is
  there (without it the class would have to match the dot and cannot). The greedy group
  takes the longest run of the class; giving units back only lengthens the remainder that
  \<^verbatim>\<open>(.*)$\<close> has to cover, so backtracking finds no match the longest run does not.
\<close>

definition dotMatch :: "jsstring \<Rightarrow> (jsstring \<times> jsstring) option" where
  "dotMatch currentPath =
     (let t = (case currentPath of
                 [] \<Rightarrow> []
               | c # cs \<Rightarrow> if c = DOT then cs else c # cs);
          key = takeWhile isNameUnit t;
          rest = dropWhile isNameUnit t
      in if key \<noteq> [] \<and> restMatches rest then Some (key, rest) else None)"

text \<open>\<^verbatim>\<open>NUMERIC_KEY_REGEX = /^\d+$/\<close> and \<^verbatim>\<open>Number(key)\<close> on such a key.\<close>

definition isNumericKey :: "jsstring \<Rightarrow> bool" where
  "isNumericKey key \<longleftrightarrow> key \<noteq> [] \<and> list_all isDigit key"

definition digitsToNumber :: "jsstring \<Rightarrow> nat" where
  "digitsToNumber key = foldl (\<lambda>n c. 10 * n + (unat c - 48)) 0 key"

definition parsedKey :: "jsstring \<Rightarrow> segment" where
  "parsedKey key = (if isNumericKey key then Index (digitsToNumber key) else Name key)"

lemma bracketScan_shorter:
  "bracketScan key cs = Some (k, rest) \<Longrightarrow> length rest < length cs"
  by (induction key cs rule: bracketScan.induct) (auto split: if_splits)

lemma bracketMatch_shorter:
  "bracketMatch s = Some (k, rest) \<Longrightarrow> length rest < length s"
  by (auto simp: bracketMatch_def split: list.splits if_splits dest: bracketScan_shorter)

lemma dotMatch_shorter:
  assumes "dotMatch s = Some (k, rest)"
  shows "length rest < length s"
proof -
  define t where "t = (case s of [] \<Rightarrow> [] | c # cs \<Rightarrow> if c = DOT then cs else c # cs)"
  have le: "length t \<le> length s"
    by (simp add: t_def split: list.splits)
  from assms have k: "k = takeWhile isNameUnit t" "rest = dropWhile isNameUnit t" "k \<noteq> []"
    by (auto simp: dotMatch_def Let_def t_def split: if_splits)
  have "length k + length rest = length t"
    unfolding k by (metis length_append takeWhile_dropWhile_id)
  with k(3) le show ?thesis by (cases k) auto
qed

text \<open>
  \<open>parsePath\<close>: \<open>None\<close> is the source's \<^verbatim>\<open>null\<close>. The recursion is on the remainder
  that the matched pattern leaves, which is shorter than the current path.
\<close>

function parsePath :: "jsstring \<Rightarrow> segment list option" where
  "parsePath currentPath =
     (if length currentPath = 0 then Some []
      else case bracketMatch currentPath of
        Some (key, rest) \<Rightarrow>
          (case parsePath rest of
             None \<Rightarrow> None
           | Some restResult \<Rightarrow> Some (parsedKey key # restResult))
      | None \<Rightarrow>
          (case dotMatch currentPath of
             Some (key, rest) \<Rightarrow>
               (case parsePath rest of
                  None \<Rightarrow> None
                | Some restResult \<Rightarrow> Some (parsedKey key # restResult))
           | None \<Rightarrow> None))"
  by pat_completeness auto
termination
  by (relation "measure length") (auto dest: bracketMatch_shorter dotMatch_shorter)

declare parsePath.simps [simp del]

definition stringToPathArray :: "jsstring \<Rightarrow> segment list" where
  "stringToPathArray path =
     (if length path = 0 then []
      else case parsePath path of
        None \<Rightarrow> [Name path]
      | Some result \<Rightarrow> result)"

section \<open>Shapes of malformed paths\<close>

text \<open>Some \<^verbatim>\<open>[\<close> has no \<^verbatim>\<open>]\<close> anywhere after it.\<close>

fun unclosedBracket :: "jsstring \<Rightarrow> bool" where
  "unclosedBracket [] = False"
| "unclosedBracket (c # cs) = ((c = LBRACKET \<and> RBRACKET \<notin> set cs) \<or> unclosedBracket cs)"

text \<open>Some \<^verbatim>\<open>]\<close> has no \<^verbatim>\<open>[\<close> anywhere before it.\<close>

definition unopenedBracket :: "jsstring \<Rightarrow> bool" where
  "unopenedBracket s \<longleftrightarrow> RBRACKET \<in> set (takeWhile (\<lambda>c. c \<noteq> LBRACKET) s)"

text \<open>
  The first bracket of the path opens an empty pair \<^verbatim>\<open>[]\<close>, and no \<^verbatim>\<open>]\<close> comes after
  the pair.
\<close>

definition emptyFirstBrackets :: "jsstring \<Rightarrow> bool" where
  "emptyFirstBrackets s =
     (case dropWhile (\<lambda>c. c \<noteq> LBRACKET \<and> c \<noteq> RBRACKET) s of
        c1 # c2 # post \<Rightarrow> c1 = LBRACKET \<and> c2 = RBRACKET \<and> RBRACKET \<notin> set post
      | _ \<Rightarrow> False)"

text \<open>Some dot is followed by another dot or ends the path: an empty dot segment.\<close>

fun emptyDotSegment :: "jsstring \<Rightarrow> bool" where
  "emptyDotSegment [] = False"
| "emptyDotSegment [c] = (c = DOT)"
| "emptyDotSegment (c # d # cs) = ((c = DOT \<and> d = DOT) \<or> emptyDotSegment (d # cs))"

section \<open>Values, objects and the heap\<close>

text \<open>
  \<^verbatim>\<open>setPath\<close> mutates the object it is given and returns the same reference, so objects
  live in a heap and a value of object type is an address into it. The model covers what
  \<^verbatim>\<open>setPath\<close> can tell apart: the result of \<^verbatim>\<open>typeof\<close>, whether a value is \<^verbatim>\<open>null\<close>, and
  which properties an object has or inherits. Functions are opaque (the code never looks
  inside a value whose \<^verbatim>\<open>typeof\<close> is \<^verbatim>\<open>"function"\<close>); numbers are the integral ones.
\<close>

type_synonym addr = nat

datatype jsval =
    VUndefined
  | VNull
  | VBoolean bool
  | VNumber int
  | VBigInt int
  | VString jsstring
  | VSymbol nat
  | VFunction nat
  | VObject addr

datatype jstype =
  TUndefined | TObject | TBoolean | TNumber | TBigInt | TString | TSymbol | TFunction

fun typeof :: "jsval \<Rightarrow> jstype" where
  "typeof VUndefined = TUndefined"
| "typeof VNull = TObject"
| "typeof (VBoolean b) = TBoolean"
| "typeof (VNumber n) = TNumber"
| "typeof (VBigInt n) = TBigInt"
| "typeof (VString s) = TString"
| "typeof (VSymbol n) = TSymbol"
| "typeof (VFunction f) = TFunction"
| "typeof (VObject a) = TObject"

text \<open>
  An own property is a writable data property, or the accessor \<^verbatim>\<open>__proto__\<close> that
  \<^verbatim>\<open>Object.prototype\<close> carries. An object has a prototype link, the flag of an Array
  exotic object, and its own properties in creation order. Objects are extensible.
\<close>

datatype slot = Data jsval | ProtoAccessor

record jsobject =
  prototype :: "addr option"
  isArray :: bool
  properties :: "(jsstring \<times> slot) list"

type_synonym heap = "jsobject list"

text \<open>
  The two intrinsics that the literals \<^verbatim>\<open>{}\<close> and \<^verbatim>\<open>[]\<close> link to sit at the first two
  addresses of every heap.
\<close>

definition ObjectPrototype :: addr where "ObjectPrototype = 0"
definition ArrayPrototype :: addr where "ArrayPrototype = 1"

definition lengthKey :: jsstring where "lengthKey = str ''length''"

definition emptyObject :: jsobject where
  "emptyObject = \<lparr>prototype = Some ObjectPrototype, isArray = False, properties = []\<rparr>"

definition emptyArray :: jsobject where
  "emptyArray =
     \<lparr>prototype = Some ArrayPrototype, isArray = True,
      properties = [(lengthKey, Data (VNumber 0))]\<rparr>"

definition alloc :: "heap \<Rightarrow> jsobject \<Rightarrow> heap \<times> addr" where
  "alloc h ob = (h @ [ob], length h)"

text \<open>
  Property lookup walks the prototype chain. The chain of a heap with \<open>n\<close> objects has
  at most \<open>n\<close> links (the language keeps it acyclic), which bounds the walk.
\<close>

fun findSlot :: "nat \<Rightarrow> heap \<Rightarrow> addr \<Rightarrow> jsstring \<Rightarrow> slot option" where
  "findSlot 0 h a k = None"
| "findSlot (Suc n) h a k =
     (if a < length h then
        (case map_of (properties (h ! a)) k of
           Some s \<Rightarrow> Some s
         | None \<Rightarrow>
             (case prototype (h ! a) of
                None \<Rightarrow> None
              | Some p \<Rightarrow> findSlot n h p k))
      else None)"

text \<open>\<^verbatim>\<open>k in o\<close>.\<close>

definition hasProperty :: "heap \<Rightarrow> addr \<Rightarrow> jsstring \<Rightarrow> bool" where
  "hasProperty h a k \<longleftrightarrow> findSlot (length h) h a k \<noteq> None"

text \<open>\<^verbatim>\<open>o[k]\<close>; the getter of \<^verbatim>\<open>__proto__\<close> answers with the prototype of the receiver.\<close>

definition getV :: "heap \<Rightarrow> addr \<Rightarrow> jsstring \<Rightarrow> jsval" where
  "getV h a k =
     (case findSlot (length h) h a k of
        None \<Rightarrow> VUndefined
      | Some (Data v) \<Rightarrow> v
      | Some ProtoAccessor \<Rightarrow>
          (case prototype (h ! a) of None \<Rightarrow> VNull | Some p \<Rightarrow> VObject p))"

fun assign :: "jsstring \<Rightarrow> slot \<Rightarrow> (jsstring \<times> slot) list \<Rightarrow> (jsstring \<times> slot) list" where
  "assign k s [] = [(k, s)]"
| "assign k s ((k', s') # ps) = (if k' = k then (k, s) # ps else (k', s') # assign k s ps)"

text \<open>
  An array index is a canonical decimal string below \<open>2^32 - 1\<close>. Defining an element
  at or beyond the length of an array moves the length past it.
\<close>

definition arrayIndex :: "jsstring \<Rightarrow> nat option" where
  "arrayIndex k =
     (if isNumericKey k \<and> (length k = 1 \<or> hd k \<noteq> 0x30) \<and> int (digitsToNumber k) < 4294967295
      then Some (digitsToNumber k) else None)"

definition arrayLength :: "jsobject \<Rightarrow> nat" where
  "arrayLength ob =
     (case map_of (properties ob) lengthKey of
        Some (Data (VNumber n)) \<Rightarrow> nat n
      | _ \<Rightarrow> 0)"

definition setOwn :: "jsobject \<Rightarrow> jsstring \<Rightarrow> jsval \<Rightarrow> jsobject" where
  "setOwn ob k v = ob\<lparr>properties := assign k (Data v) (properties ob)\<rparr>"

definition defineOwn :: "heap \<Rightarrow> addr \<Rightarrow> jsstring \<Rightarrow> jsval \<Rightarrow> heap" where
  "defineOwn h a k v =
     (if a < length h then
        (let ob = setOwn (h ! a) k v
         in h[a := (if isArray (h ! a) then
                      (case arrayIndex k of
                         Some i \<Rightarrow>
                           if arrayLength (h ! a) \<le> i
                           then setOwn ob lengthKey (VNumber (int (Suc i))) else ob
                       | None \<Rightarrow> ob)
                    else ob)])
      else h)"

text \<open>
  \<^verbatim>\<open>o[k] = v\<close> in strict mode (the module is an ES module). A property that is absent,
  or a data property wherever on the chain it is found, becomes or stays an own data
  property of the receiver. Two assignments do more than that. On \<^verbatim>\<open>__proto__\<close> the setter
  runs: an object or \<^verbatim>\<open>null\<close> becomes the prototype of the receiver, unless the receiver
  is \<^verbatim>\<open>Object.prototype\<close> or the chain would close into a cycle (a \<^verbatim>\<open>TypeError\<close>), and any
  other value is ignored. On the \<^verbatim>\<open>length\<close> of an array the engine converts the value with
  \<^verbatim>\<open>ToNumber\<close> and truncates the array or throws a \<^verbatim>\<open>RangeError\<close>. That conversion, and a
  function given as prototype, are not interpreted here: what the engine does then is the
  parameter \<open>exoticSet\<close> of the model, and every theorem holds whatever it is.
\<close>

datatype exn = TypeError | RangeError

type_synonym engine = "heap \<Rightarrow> addr \<Rightarrow> jsstring \<Rightarrow> jsval \<Rightarrow> heap \<times> exn option"

fun onChain :: "nat \<Rightarrow> heap \<Rightarrow> addr \<Rightarrow> addr \<Rightarrow> bool" where
  "onChain 0 h p a = False"
| "onChain (Suc n) h p a =
     (p = a \<or> (p < length h \<and>
        (case prototype (h ! p) of None \<Rightarrow> False | Some q \<Rightarrow> onChain n h q a)))"

definition setPrototypeOf :: "heap \<Rightarrow> addr \<Rightarrow> addr option \<Rightarrow> heap \<times> exn option" where
  "setPrototypeOf h a p =
     (if \<not> a < length h \<or> prototype (h ! a) = p then (h, None)
      else if a = ObjectPrototype then (h, Some TypeError)
      else if (case p of None \<Rightarrow> False | Some q \<Rightarrow> onChain (length h) h q a)
        then (h, Some TypeError)
      else (h[a := (h ! a)\<lparr>prototype := p\<rparr>], None))"

definition protoSetter ::
  "engine \<Rightarrow> heap \<Rightarrow> addr \<Rightarrow> jsstring \<Rightarrow> jsval \<Rightarrow> heap \<times> exn option" where
  "protoSetter exoticSet h a k v =
     (case v of
        VObject p \<Rightarrow> setPrototypeOf h a (Some p)
      | VNull \<Rightarrow> setPrototypeOf h a None
      | VFunction f \<Rightarrow> exoticSet h a k v
      | _ \<Rightarrow> (h, None))"

definition putV :: "engine \<Rightarrow> heap \<Rightarrow> addr \<Rightarrow> jsstring \<Rightarrow> jsval \<Rightarrow> heap \<times> exn option" where
  "putV exoticSet h a k v =
     (if findSlot (length h) h a k = Some ProtoAccessor then protoSetter exoticSet h a k v
      else if a < length h \<and> isArray (h ! a) \<and> k = lengthKey then exoticSet h a k v
      else (defineOwn h a k v, None))"

section \<open>The assembler (set-path.ts)\<close>

text \<open>
  A segment used as a property key: a string is the key, a number is converted to its
  decimal string (what the engine does for an integral number below \<open>10^21\<close>).
\<close>

function decimal :: "nat \<Rightarrow> jsstring" where
  "decimal n =
     (if n < 10 then [of_nat (48 + n)] else decimal (n div 10) @ [of_nat (48 + n mod 10)])"
  by pat_completeness auto
termination
  by (relation "measure id") auto

declare decimal.simps [simp del]

definition propertyKey :: "segment \<Rightarrow> jsstring" where
  "propertyKey seg = (case seg of Name s \<Rightarrow> s | Index n \<Rightarrow> decimal n)"

text \<open>\<^verbatim>\<open>typeof nextSegment === "number"\<close>.\<close>

definition isNumber :: "segment \<Rightarrow> bool" where
  "isNumber seg = (case seg of Name s \<Rightarrow> False | Index n \<Rightarrow> True)"

text \<open>
  The two errors \<^verbatim>\<open>setPath\<close> throws itself, with what their messages carry (the segment
  and the \<^verbatim>\<open>typeof\<close> of the value found), and an exception of the engine passing through.
  The two guards against an \<^verbatim>\<open>undefined\<close> segment cannot fire on an array of strings and
  numbers and have no branch here.
\<close>

datatype error = EmptyPath | StructuralConflict segment jstype | Thrown exn

text \<open>
  The loop over \<^verbatim>\<open>leadingSegments\<close>. It returns the heap as the loop left it also when
  it throws, since the mutations made before the throw stay.
\<close>

fun navigate ::
  "engine \<Rightarrow> heap \<Rightarrow> addr \<Rightarrow> segment list \<Rightarrow> segment \<Rightarrow> heap \<times> (error + addr)" where
  "navigate exoticSet h currentObject [] lastSegment = (h, Inr currentObject)"
| "navigate exoticSet h currentObject (currentSegment # leadingSegments) lastSegment =
     (let k = propertyKey currentSegment;
          nextSegment = (case leadingSegments of [] \<Rightarrow> lastSegment | s # _ \<Rightarrow> s);
          (h1, thrown) =
            (if \<not> hasProperty h currentObject k then
               (let (h0, a) = alloc h (if isNumber nextSegment then emptyArray else emptyObject)
                in putV exoticSet h0 currentObject k (VObject a))
             else (h, None))
      in case thrown of
           Some x \<Rightarrow> (h1, Inl (Thrown x))
         | None \<Rightarrow>
             (let nextValue = getV h1 currentObject k
              in if typeof nextValue \<noteq> TObject \<or> nextValue = VNull
                 then (h1, Inl (StructuralConflict currentSegment (typeof nextValue)))
                 else (case nextValue of
                         VObject a \<Rightarrow> navigate exoticSet h1 a leadingSegments lastSegment
                       | _ \<Rightarrow> (h1, Inl (StructuralConflict currentSegment (typeof nextValue))))))"

text \<open>
  \<^verbatim>\<open>setPath\<close> after the path has been parsed, and \<^verbatim>\<open>setPath\<close> itself. The result is the
  heap and either the error thrown or the reference returned, which is \<open>object\<close>.
\<close>

definition setPathSegments ::
  "engine \<Rightarrow> heap \<Rightarrow> addr \<Rightarrow> segment list \<Rightarrow> jsval \<Rightarrow> heap \<times> (error + addr)" where
  "setPathSegments exoticSet h object pathSegments value =
     (if length pathSegments = 0 then (h, Inl EmptyPath)
      else
        (let leadingSegments = butlast pathSegments;
             lastSegment = last pathSegments
         in case navigate exoticSet h object leadingSegments lastSegment of
              (h1, Inl e) \<Rightarrow> (h1, Inl e)
            | (h1, Inr currentObject) \<Rightarrow>
                (case putV exoticSet h1 currentObject (propertyKey lastSegment) value of
                   (h2, Some x) \<Rightarrow> (h2, Inl (Thrown x))
                 | (h2, None) \<Rightarrow> (h2, Inr object))))"

definition setPath ::
  "engine \<Rightarrow> heap \<Rightarrow> addr \<Rightarrow> jsstring \<Rightarrow> jsval \<Rightarrow> heap \<times> (error + addr)" where
  "setPath exoticSet h object path value =
     setPathSegments exoticSet h object (stringToPathArray path) value"

section \<open>The aggregator (formData)\<close>

text \<open>
  The transform of \<^verbatim>\<open>formData\<close> that turns the array of entries into the nested object.
  The \<^verbatim>\<open>Map\<close> from a key to the list of its values is an association list in insertion
  order; a list that is handed to \<^verbatim>\<open>setPath\<close> as a value becomes an array in the heap.
  \<open>shapeKeys\<close> is \<^verbatim>\<open>Object.keys(shape)\<close>.
\<close>

fun groupEntries ::
  "(jsstring \<times> jsval list) list \<Rightarrow> (jsstring \<times> jsval) list \<Rightarrow> (jsstring \<times> jsval list) list" where
  "groupEntries m [] = m"
| "groupEntries m ((key, value) # data) =
     groupEntries
       (case map_of m key of
          Some list \<Rightarrow> map (\<lambda>(k, l). if k = key then (k, l @ [value]) else (k, l)) m
        | None \<Rightarrow> m @ [(key, [value])])
       data"

definition arrayOf :: "jsval list \<Rightarrow> jsobject" where
  "arrayOf list =
     \<lparr>prototype = Some ArrayPrototype, isArray = True,
      properties =
        (lengthKey, Data (VNumber (int (length list))))
        # map (\<lambda>(i, v). (decimal i, Data v)) (enumerate 0 list)\<rparr>"

text \<open>\<^verbatim>\<open>list.length === 1 ? list[0] : list\<close>.\<close>

definition collapse :: "heap \<Rightarrow> jsval list \<Rightarrow> heap \<times> jsval" where
  "collapse h list =
     (if length list = 1 then (h, list ! 0)
      else (let (h1, a) = alloc h (arrayOf list) in (h1, VObject a)))"

fun assemble ::
  "engine \<Rightarrow> heap \<Rightarrow> addr \<Rightarrow> (jsstring \<times> jsval list) list \<Rightarrow> heap \<times> (error + addr)" where
  "assemble exoticSet h acc [] = (h, Inr acc)"
| "assemble exoticSet h acc ((key, list) # m) =
     (let (h1, value) = collapse h list
      in case setPath exoticSet h1 acc key value of
           (h2, Inl e) \<Rightarrow> (h2, Inl e)
         | (h2, Inr acc') \<Rightarrow> assemble exoticSet h2 acc' m)"

fun backfill ::
  "engine \<Rightarrow> heap \<Rightarrow> addr \<Rightarrow> jsstring list \<Rightarrow> heap \<times> (error + addr)" where
  "backfill exoticSet h result [] = (h, Inr result)"
| "backfill exoticSet h result (key # keys) =
     (if \<not> hasProperty h result key then
        (case setPath exoticSet h result key VUndefined of
           (h1, Inl e) \<Rightarrow> (h1, Inl e)
         | (h1, Inr r) \<Rightarrow> backfill exoticSet h1 result keys)
      else backfill exoticSet h result keys)"

definition formData ::
  "engine \<Rightarrow> heap \<Rightarrow> jsstring list \<Rightarrow> (jsstring \<times> jsval) list \<Rightarrow> heap \<times> (error + addr)" where
  "formData exoticSet h shapeKeys data =
     (let m = groupEntries [] data;
          (h0, acc) = alloc h emptyObject
      in case assemble exoticSet h0 acc m of
           (h1, Inl e) \<Rightarrow> (h1, Inl e)
         | (h1, Inr result) \<Rightarrow> backfill exoticSet h1 result shapeKeys)"


section \<open>Canonical text of a segment sequence\<close>




section \<open>Heaps to run the code on\<close>

text \<open>
  The realm a program starts in: \<^verbatim>\<open>Object.prototype\<close> and \<^verbatim>\<open>Array.prototype\<close> with the
  string-keyed properties the language gives them.
\<close>

definition methods :: "nat \<Rightarrow> string list \<Rightarrow> (jsstring \<times> slot) list" where
  "methods base names = map (\<lambda>(i, n). (str n, Data (VFunction i))) (enumerate base names)"

definition ObjectPrototypeObject :: jsobject where
  "ObjectPrototypeObject =
     \<lparr>prototype = None, isArray = False,
      properties =
        methods 0 [''constructor'', ''__defineGetter__'', ''__defineSetter__'',
          ''hasOwnProperty'', ''__lookupGetter__'', ''__lookupSetter__'', ''isPrototypeOf'',
          ''propertyIsEnumerable'', ''toString'', ''valueOf'', ''toLocaleString'']
        @ [(str ''__proto__'', ProtoAccessor)]\<rparr>"

definition ArrayPrototypeObject :: jsobject where
  "ArrayPrototypeObject =
     \<lparr>prototype = Some ObjectPrototype, isArray = True,
      properties =
        (lengthKey, Data (VNumber 0))
        # methods 100 [''constructor'', ''at'', ''concat'', ''copyWithin'', ''fill'', ''find'',
            ''findIndex'', ''findLast'', ''findLastIndex'', ''lastIndexOf'', ''pop'', ''push'',
            ''reverse'', ''shift'', ''unshift'', ''slice'', ''sort'', ''splice'', ''includes'',
            ''indexOf'', ''join'', ''keys'', ''entries'', ''values'', ''forEach'', ''filter'',
            ''flat'', ''flatMap'', ''map'', ''every'', ''some'', ''reduce'', ''reduceRight'',
            ''toLocaleString'', ''toString'', ''toReversed'', ''toSorted'', ''toSpliced'',
            ''with'']\<rparr>"

definition realm :: heap where
  "realm = [ObjectPrototypeObject, ArrayPrototypeObject]"

text \<open>An empty object to work on, and an object that holds a string under \<^verbatim>\<open>user\<close>.\<close>

definition emptyRoot :: heap where
  "emptyRoot = realm @ [emptyObject]"

definition leafHeap :: heap where
  "leafHeap =
     realm @ [\<lparr>prototype = Some ObjectPrototype, isArray = False,
               properties = [(str ''user'', Data (VString (str ''string value'')))]\<rparr>]"

text \<open>
  A file handle as a form submission carries it: an object whose prototype chain is
  \<^verbatim>\<open>File.prototype\<close>, \<^verbatim>\<open>Blob.prototype\<close>, \<^verbatim>\<open>Object.prototype\<close>. The two prototypes are
  listed with their methods; their accessors (\<^verbatim>\<open>size\<close>, \<^verbatim>\<open>type\<close>, \<^verbatim>\<open>name\<close>,
  \<^verbatim>\<open>lastModified\<close>) are getters, which a slot does not hold, and no example names them.
  The handle is at address 4, and the object at address 5 holds it under \<^verbatim>\<open>f\<close>.
\<close>

definition fileHeap :: heap where
  "fileHeap =
     realm @
     [\<lparr>prototype = Some ObjectPrototype, isArray = False,
        properties = methods 200 [''constructor'', ''arrayBuffer'', ''slice'', ''stream'', ''text'']\<rparr>,
      \<lparr>prototype = Some 2, isArray = False, properties = methods 300 [''constructor'']\<rparr>,
      \<lparr>prototype = Some 3, isArray = False, properties = []\<rparr>,
      \<lparr>prototype = Some ObjectPrototype, isArray = False,
        properties = [(str ''f'', Data (VObject 4))]\<rparr>]"

text \<open>
  An engine to run the examples with. No example assigns to the length of an array or
  gives a function as prototype, so none depends on it.
\<close>

definition refuse :: engine where
  "refuse h a k v = (h, Some TypeError)"




text \<open>
  What a value looks like from outside: the own properties of an object, without the
  \<^verbatim>\<open>length\<close> of an array, down to a given depth.
\<close>

datatype tree = Leaf jsval | Tree bool "(jsstring \<times> tree) list"

fun snapshot :: "nat \<Rightarrow> heap \<Rightarrow> jsval \<Rightarrow> tree" where
  "snapshot 0 h v = Leaf v"
| "snapshot (Suc n) h v =
     (case v of
        VObject a \<Rightarrow>
          if a < length h then
            Tree (isArray (h ! a))
              (map (\<lambda>(k, s). (k, case s of Data w \<Rightarrow> snapshot n h w | ProtoAccessor \<Rightarrow> Leaf VUndefined))
                 (filter (\<lambda>(k, s). \<not> (isArray (h ! a) \<and> k = lengthKey)) (properties (h ! a))))
          else Leaf v
      | _ \<Rightarrow> Leaf v)"

text \<open>The empty object after \<^verbatim>\<open>setPath(obj, "address.street", "X")\<close>.\<close>

definition populated :: heap where
  "populated = fst (setPath refuse emptyRoot 2 (str ''address.street'') (VString (str ''X'')))"

text \<open>The result of a call as a caller sees it: the error, or the object returned.\<close>

definition outcome :: "heap \<times> (error + addr) \<Rightarrow> error + tree" where
  "outcome st =
     (case st of
        (h, Inl e) \<Rightarrow> Inl e
      | (h, Inr a) \<Rightarrow> Inr (snapshot (length h) h (VObject a)))"

section \<open>What a match consumes\<close>

lemma bracketScan_Some:
  "bracketScan key cs = Some (k, rest) \<Longrightarrow>
     \<exists>mid. k = key @ mid \<and> cs = mid @ RBRACKET # rest \<and> k \<noteq> [] \<and> restMatches rest
        \<and> list_all (\<lambda>c. \<not> isLineTerminator c) mid"
proof (induction key cs rule: bracketScan.induct)
  case (1 key)
  then show ?case by simp
next
  case (2 key c cs)
  show ?case
  proof (cases "key \<noteq> [] \<and> c = RBRACKET \<and> restMatches cs")
    case True
    with 2(2) show ?thesis by auto
  next
    case False
    with 2(2) have nl: "\<not> isLineTerminator c" and rec: "bracketScan (key @ [c]) cs = Some (k, rest)"
      by (auto split: if_splits)
    from 2(1)[OF False nl rec] obtain mid where
      "k = (key @ [c]) @ mid" "cs = mid @ RBRACKET # rest" "k \<noteq> []" "restMatches rest"
      "list_all (\<lambda>c. \<not> isLineTerminator c) mid" by blast
    with nl show ?thesis
      by (intro exI[of _ "c # mid"]) simp
  qed
qed

lemma bracketMatch_Some:
  "bracketMatch s = Some (k, rest) \<Longrightarrow> s = LBRACKET # k @ RBRACKET # rest \<and> k \<noteq> [] \<and> restMatches rest"
  by (auto simp: bracketMatch_def split: list.splits if_splits dest!: bracketScan_Some)

lemma dotMatch_Some:
  assumes "dotMatch s = Some (k, rest)"
  shows "(s = k @ rest \<or> s = DOT # k @ rest) \<and> k \<noteq> [] \<and> list_all isNameUnit k
         \<and> restMatches rest \<and> (rest = [] \<or> \<not> isNameUnit (hd rest))"
proof -
  define t where "t = (case s of [] \<Rightarrow> [] | c # cs \<Rightarrow> if c = DOT then cs else c # cs)"
  from assms have k: "k = takeWhile isNameUnit t" "rest = dropWhile isNameUnit t" "k \<noteq> []"
      "restMatches rest"
    by (auto simp: dotMatch_def Let_def t_def split: if_splits)
  have t: "t = k @ rest" unfolding k by simp
  have s: "s = t \<or> s = DOT # t"
    by (auto simp: t_def split: list.splits)
  have "list_all isNameUnit k"
    unfolding k by (simp add: list_all_iff) (meson set_takeWhileD)
  moreover have "rest = [] \<or> \<not> isNameUnit (hd rest)"
    unfolding k by (metis hd_dropWhile)
  ultimately show ?thesis using k(3,4) t s by blast
qed

text \<open>The unfolding of \<open>parsePath\<close>, one equation for each way through its body.\<close>

lemma parsePath_Nil: "parsePath [] = Some []"
  by (subst parsePath.simps) simp

lemma parsePath_bracket:
  "bracketMatch s = Some (key, rest) \<Longrightarrow>
     parsePath s = map_option ((#) (parsedKey key)) (parsePath rest)"
  by (subst parsePath.simps) (auto simp: bracketMatch_def split: option.splits)

lemma parsePath_dot:
  "bracketMatch s = None \<Longrightarrow> dotMatch s = Some (key, rest) \<Longrightarrow>
     parsePath s = map_option ((#) (parsedKey key)) (parsePath rest)"
  by (subst parsePath.simps) (auto simp: dotMatch_def Let_def split: option.splits list.splits if_splits)

lemma parsePath_nomatch:
  "s \<noteq> [] \<Longrightarrow> bracketMatch s = None \<Longrightarrow> dotMatch s = None \<Longrightarrow> parsePath s = None"
  by (subst parsePath.simps) simp


section \<open>Totality of the parser\<close>



section \<open>Malformed brackets and the fallback\<close>

lemma brackets_distinct [simp]:
  "LBRACKET \<noteq> RBRACKET" "RBRACKET \<noteq> LBRACKET" "DOT \<noteq> LBRACKET" "DOT \<noteq> RBRACKET"
  "LBRACKET \<noteq> DOT" "RBRACKET \<noteq> DOT"
  by (simp_all add: LBRACKET_def RBRACKET_def DOT_def)

lemma unclosed_after_closing: "unclosedBracket (xs @ RBRACKET # rest) = unclosedBracket rest"
  by (induction xs) auto

lemma unclosed_after_name: "LBRACKET \<notin> set k \<Longrightarrow> unclosedBracket (k @ rest) = unclosedBracket rest"
  by (induction k) auto

lemma unclosed_fallback: "unclosedBracket s \<Longrightarrow> parsePath s = None"
proof (induction s rule: length_induct)
  case (1 s)
  from 1(2) have ne: "s \<noteq> []" by auto
  show ?case
  proof (cases "bracketMatch s")
    case (Some kr)
    obtain key rest where kr: "kr = (key, rest)" by (cases kr)
    from Some kr bracketMatch_Some[of s key rest]
    have s: "s = (LBRACKET # key) @ RBRACKET # rest" by simp
    from 1(2) have "unclosedBracket rest"
      by (subst (asm) s) (simp only: unclosed_after_closing)
    moreover have "length rest < length s" by (subst s) simp
    ultimately have "parsePath rest = None" using 1(1) by blast
    with Some kr show ?thesis by (simp add: parsePath_bracket)
  next
    case None
    show ?thesis
    proof (cases "dotMatch s")
      case (Some kr)
      obtain key rest where kr: "kr = (key, rest)" by (cases kr)
      from Some kr dotMatch_Some[of s key rest]
      have s: "s = key @ rest \<or> s = (DOT # key) @ rest" and k: "list_all isNameUnit key" "key \<noteq> []"
        by simp_all
      from k have nl: "LBRACKET \<notin> set key" "LBRACKET \<notin> set (DOT # key)"
        by (auto simp: list_all_iff isNameUnit_def)
      from s 1(2) nl have "unclosedBracket rest"
        using unclosed_after_name by metis
      moreover from s k have "length rest < length s" by (cases key) auto
      ultimately have "parsePath rest = None" using 1(1) by blast
      with None Some kr show ?thesis by (simp add: parsePath_dot)
    next
      case dn: None
      with ne None show ?thesis by (simp add: parsePath_nomatch)
    qed
  qed
qed

lemma unopened_fallback: "unopenedBracket s \<Longrightarrow> parsePath s = None"
proof (induction s rule: length_induct)
  case (1 s)
  from 1(2) have ne: "s \<noteq> []" by (auto simp: unopenedBracket_def)
  have nb: "bracketMatch s = None"
  proof (cases s)
    case Nil
    then show ?thesis by (simp add: bracketMatch_def)
  next
    case (Cons c cs)
    with 1(2) have "c \<noteq> LBRACKET" by (auto simp: unopenedBracket_def)
    with Cons show ?thesis by (simp add: bracketMatch_def)
  qed
  show ?case
  proof (cases "dotMatch s")
    case (Some kr)
    obtain key rest where kr: "kr = (key, rest)" by (cases kr)
    from Some kr dotMatch_Some[of s key rest]
    have s: "s = key @ rest \<or> s = (DOT # key) @ rest" and k: "list_all isNameUnit key" "key \<noteq> []"
      by simp_all
    from k have nl: "\<forall>c\<in>set key. c \<noteq> LBRACKET \<and> c \<noteq> RBRACKET"
      by (auto simp: list_all_iff isNameUnit_def)
    then have tw: "takeWhile (\<lambda>c. c \<noteq> LBRACKET) (key @ rest) = key @ takeWhile (\<lambda>c. c \<noteq> LBRACKET) rest"
      by (simp add: takeWhile_append2)
    from s 1(2) nl have "unopenedBracket rest"
      by (auto simp: unopenedBracket_def tw)
    moreover from s k have "length rest < length s" by (cases key) auto
    ultimately have "parsePath rest = None" using 1(1) by blast
    with nb Some kr show ?thesis by (simp add: parsePath_dot)
  next
    case dn: None
    with ne nb show ?thesis by (simp add: parsePath_nomatch)
  qed
qed

lemma bracketScan_no_closing: "RBRACKET \<notin> set cs \<Longrightarrow> bracketScan key cs = None"
  by (induction key cs rule: bracketScan.induct) auto

lemma emptyFirst_fallback: "emptyFirstBrackets s \<Longrightarrow> parsePath s = None"
proof (induction s rule: length_induct)
  case (1 s)
  from 1(2) have ne: "s \<noteq> []" by (auto simp: emptyFirstBrackets_def)
  then obtain c cs where s: "s = c # cs" by (cases s) auto
  show ?case
  proof (cases "c = LBRACKET")
    case True
    with 1(2) s obtain post where cs: "cs = RBRACKET # post" "RBRACKET \<notin> set post"
      by (auto simp: emptyFirstBrackets_def split: list.splits)
    have "bracketMatch s = None"
      using s True cs by (simp add: bracketMatch_def bracketScan_no_closing)
    moreover have "dotMatch s = None"
      using s True by (simp add: dotMatch_def isNameUnit_def)
    ultimately show ?thesis using ne by (simp add: parsePath_nomatch)
  next
    case False
    with s have nb: "bracketMatch s = None" by (simp add: bracketMatch_def)
    show ?thesis
    proof (cases "dotMatch s")
      case (Some kr)
      obtain key rest where kr: "kr = (key, rest)" by (cases kr)
      from Some kr dotMatch_Some[of s key rest]
      have s': "s = key @ rest \<or> s = (DOT # key) @ rest" and k: "list_all isNameUnit key" "key \<noteq> []"
        by simp_all
      from k have nl: "\<forall>c\<in>set key. c \<noteq> LBRACKET \<and> c \<noteq> RBRACKET"
        by (auto simp: list_all_iff isNameUnit_def)
      then have "dropWhile (\<lambda>c. c \<noteq> LBRACKET \<and> c \<noteq> RBRACKET) (key @ rest)
          = dropWhile (\<lambda>c. c \<noteq> LBRACKET \<and> c \<noteq> RBRACKET) rest"
        by (simp add: dropWhile_append2)
      with s' 1(2) have "emptyFirstBrackets rest"
        by (auto simp: emptyFirstBrackets_def)
      moreover from s' k have "length rest < length s" by (cases key) auto
      ultimately have "parsePath rest = None" using 1(1) by blast
      with nb Some kr show ?thesis by (simp add: parsePath_dot)
    next
      case dn: None
      with ne nb show ?thesis by (simp add: parsePath_nomatch)
    qed
  qed
qed

text \<open>
  C1, as the code has it. A path in which some \<^verbatim>\<open>[\<close> has no \<^verbatim>\<open>]\<close> after it, or some
  \<^verbatim>\<open>]\<close> has no \<^verbatim>\<open>[\<close> before it, or whose first bracket opens an empty pair \<^verbatim>\<open>[]\<close>
  with no \<^verbatim>\<open>]\<close> after the pair, parses to the single segment that is the path itself.
\<close>

theorem malformed_brackets_fallback:
  "unclosedBracket s \<or> unopenedBracket s \<or> emptyFirstBrackets s \<Longrightarrow>
     stringToPathArray s = [Name s]"
proof -
  assume h: "unclosedBracket s \<or> unopenedBracket s \<or> emptyFirstBrackets s"
  then have "parsePath s = None"
    using unclosed_fallback unopened_fallback emptyFirst_fallback by blast
  moreover from this have "s \<noteq> []" by (auto simp: parsePath_Nil)
  ultimately show ?thesis by (simp add: stringToPathArray_def)
qed

theorem malformed_brackets_fallback_witness:
  "unclosedBracket (str ''invalid[[path'')
   \<and> stringToPathArray (str ''invalid[[path'') = [Name (str ''invalid[[path'')]"
proof -
  have h: "unclosedBracket (str ''invalid[[path'')"
    by code_simp
  from h malformed_brackets_fallback [of "str ''invalid[[path''"] show ?thesis
    by blast
qed

text \<open>
  C1 as the spec states it fails: the bracket key is any non-empty run of code units up
  to the first closing bracket, so a path may hold \<^verbatim>\<open>[[\<close>, \<^verbatim>\<open>]]\<close> or \<^verbatim>\<open>[]\<close> and still
  parse. \<^verbatim>\<open>"[[a]"\<close> holds \<^verbatim>\<open>[[\<close> and has more opening than closing brackets, and parses
  to the name \<^verbatim>\<open>"[a"\<close>; \<^verbatim>\<open>"[]]"\<close> holds \<^verbatim>\<open>[]\<close> and \<^verbatim>\<open>]]\<close> and parses to the name
  \<^verbatim>\<open>"]"\<close>.
\<close>

theorem malformed_brackets_counterexample:
  "str ''[[a]'' = str ''[['' @ str ''a]''
   \<and> stringToPathArray (str ''[[a]'') = [Name (str ''[a'')]
   \<and> stringToPathArray (str ''[[a]'') \<noteq> [Name (str ''[[a]'')]
   \<and> str ''[]]'' = str ''[]'' @ str '']''
   \<and> stringToPathArray (str ''[]]'') = [Name (str '']'')]
   \<and> stringToPathArray (str ''[]]'') \<noteq> [Name (str ''[]]'')]"
  by code_simp

section \<open>Paths without brackets\<close>

lemma emptyDot_skip: "c \<noteq> DOT \<Longrightarrow> emptyDotSegment (c # cs) = emptyDotSegment cs"
  by (cases cs) auto

lemma emptyDot_skip_name: "DOT \<notin> set k \<Longrightarrow> emptyDotSegment (k @ rest) = emptyDotSegment rest"
  by (induction k) (auto simp: emptyDot_skip)

lemma emptyDot_dot: "emptyDotSegment (DOT # cs) = (cs = [] \<or> hd cs = DOT \<or> emptyDotSegment cs)"
  by (cases cs) auto

lemma restMatches_dropWhile: "restMatches xs \<Longrightarrow> restMatches (dropWhile P xs)"
  by (auto simp: restMatches_def list_all_iff dest: set_dropWhileD)

text \<open>
  C2, as the code has it. On a path with no bracket and no line terminator the parse
  fails, and the fallback is taken, exactly when the path has an empty dot segment: a
  dot followed by another dot, or a dot that ends the path.
\<close>

theorem bracket_free_fallback_iff:
  "LBRACKET \<notin> set s \<Longrightarrow> RBRACKET \<notin> set s \<Longrightarrow> restMatches s \<Longrightarrow>
     (parsePath s = None) = emptyDotSegment s"
proof (induction s rule: length_induct)
  case (1 s)
  show ?case
  proof (cases s)
    case Nil
    then show ?thesis by (simp add: parsePath_Nil)
  next
    case (Cons c cs)
    have nb: "bracketMatch s = None"
      using Cons 1(2) by (auto simp: bracketMatch_def)
    define t where "t = (if c = DOT then cs else s)"
    define key where "key = takeWhile isNameUnit t"
    define rest where "rest = dropWhile isNameUnit t"
    have t: "t = key @ rest" by (simp add: key_def rest_def)
    have sub: "set t \<subseteq> set s" using Cons by (auto simp: t_def)
    have s: "s = (if c = DOT then DOT # key @ rest else key @ rest)"
      using Cons t by (auto simp: t_def)
    have rm_t: "restMatches t" using 1(4) Cons by (auto simp: t_def restMatches_def)
    then have rm: "restMatches rest" unfolding rest_def by (rule restMatches_dropWhile)
    have dm: "dotMatch s = (if key \<noteq> [] then Some (key, rest) else None)"
      using Cons rm by (auto simp: dotMatch_def Let_def key_def rest_def t_def)
    have nodot: "DOT \<notin> set key"
      unfolding key_def by (auto dest!: set_takeWhileD simp: isNameUnit_def)
    have key_empty: "key = [] \<longleftrightarrow> t = [] \<or> hd t = DOT"
    proof -
      have "x \<in> set t \<Longrightarrow> isNameUnit x = (x \<noteq> DOT)" for x
        using sub 1(2,3) by (auto simp: isNameUnit_def)
      then show ?thesis
        unfolding key_def by (cases t) (auto simp: takeWhile_eq_Nil_iff)
    qed
    show ?thesis
    proof (cases "key = []")
      case True
      with dm nb Cons have "parsePath s = None" by (simp add: parsePath_nomatch)
      moreover have "emptyDotSegment s"
      proof (cases "c = DOT")
        case cd: True
        with True key_empty Cons show ?thesis by (auto simp: t_def emptyDot_dot)
      next
        case False
        with True key_empty Cons show ?thesis by (auto simp: t_def)
      qed
      ultimately show ?thesis by simp
    next
      case False
      with dm have "dotMatch s = Some (key, rest)" by simp
      then have pp: "parsePath s = map_option ((#) (parsedKey key)) (parsePath rest)"
        using nb by (simp add: parsePath_dot)
      have "length rest < length s" using s False by (cases key) (auto split: if_splits)
      moreover have "set rest \<subseteq> set s" using sub t by auto
      ultimately have ih: "(parsePath rest = None) = emptyDotSegment rest"
        using 1(1) 1(2,3) rm by blast
      have "emptyDotSegment s = emptyDotSegment rest"
      proof (cases "c = DOT")
        case True
        with s have "s = DOT # key @ rest" by simp
        moreover from False nodot have "hd (key @ rest) \<noteq> DOT" by (cases key) auto
        ultimately show ?thesis using False nodot
          by (simp add: emptyDot_dot emptyDot_skip_name)
      next
        case cd: False
        with s have "s = key @ rest" by simp
        then show ?thesis using nodot by (simp add: emptyDot_skip_name)
      qed
      with pp ih show ?thesis by simp
    qed
  qed
qed

theorem bracket_free_fallback_iff_witness:
  "LBRACKET \<notin> set (str ''a.b.c'') \<and> RBRACKET \<notin> set (str ''a.b.c'')
   \<and> restMatches (str ''a.b.c'') \<and> \<not> emptyDotSegment (str ''a.b.c'')
   \<and> parsePath (str ''a.b.c'') \<noteq> None"
proof -
  have h: "LBRACKET \<notin> set (str ''a.b.c'')" "RBRACKET \<notin> set (str ''a.b.c'')"
      "restMatches (str ''a.b.c'')"
    by code_simp+
  have e: "\<not> emptyDotSegment (str ''a.b.c'')"
    by code_simp
  from h e bracket_free_fallback_iff [OF h] show ?thesis
    by blast
qed

text \<open>
  C2 as the spec states it fails: \<^verbatim>\<open>"a..b"\<close> holds no bracket at all, and the dot pattern
  does not match at \<^verbatim>\<open>"..b"\<close>, so the whole path falls back to one name.
\<close>

theorem bracket_free_fallback_counterexample:
  "LBRACKET \<notin> set (str ''a..b'') \<and> RBRACKET \<notin> set (str ''a..b'')
   \<and> parsePath (str ''a..b'') = None
   \<and> stringToPathArray (str ''a..b'') = [Name (str ''a..b'')]"
  by code_simp

section \<open>Numeric keys in dot and in bracket notation\<close>






lemma bracketMatch_None: "s = [] \<or> hd s \<noteq> LBRACKET \<Longrightarrow> bracketMatch s = None"
  by (cases s) (auto simp: bracketMatch_def)




section \<open>Lookups and writes in a well-formed heap\<close>

lemma typeof_object_iff: "(typeof v \<noteq> TObject \<or> v = VNull) \<longleftrightarrow> (\<forall>a. v \<noteq> VObject a)"
  by (cases v) auto











lemma map_of_assign: "map_of (assign k s ps) k' = (if k' = k then Some s else map_of ps k')"
  by (induction ps) auto


lemma arrayIndex_lengthKey: "arrayIndex lengthKey = None"
  by code_simp

lemma length_defineOwn [simp]: "length (defineOwn h a k v) = length h"
  by (simp add: defineOwn_def Let_def)


lemma defineOwn_own:
  assumes "a < length h"
  shows "map_of (properties (defineOwn h a k v ! a)) k = Some (Data v)"
proof -
  have "arrayIndex k = Some i \<Longrightarrow> k \<noteq> lengthKey" for i
    using arrayIndex_lengthKey by auto
  then show ?thesis using assms
    by (auto simp: defineOwn_def Let_def setOwn_def map_of_assign split: option.splits)
qed

lemma defineOwn_shape:
  assumes "a < length h"
  shows "prototype (defineOwn h a k v ! a) = prototype (h ! a)"
    and "isArray (defineOwn h a k v ! a) = isArray (h ! a)"
  using assms by (auto simp: defineOwn_def Let_def setOwn_def split: option.splits)

lemma findSlot_defineOwn:
  assumes "a < length h"
  shows "findSlot (length (defineOwn h a k v)) (defineOwn h a k v) a k = Some (Data v)"
proof -
  from assms obtain n where "length h = Suc n" by (cases "length h") auto
  then show ?thesis using assms defineOwn_own[OF assms, of k v] by simp
qed

lemma getV_defineOwn: "a < length h \<Longrightarrow> getV (defineOwn h a k v) a k = v"
  using findSlot_defineOwn[of a h k v] by (simp add: getV_def)

lemma hasProperty_defineOwn: "a < length h \<Longrightarrow> hasProperty (defineOwn h a k v) a k"
  using findSlot_defineOwn[of a h k v] by (simp add: hasProperty_def)














section \<open>Descending through a key that exists\<close>

text \<open>
  C3, as the code has it. When the key of a leading segment is in the current object,
  the loop reads the value and leaves the heap as it is. If the \<^verbatim>\<open>typeof\<close> of the value is
  not \<^verbatim>\<open>"object"\<close>, or the value is \<^verbatim>\<open>null\<close>, the call fails with the structural conflict
  that names the segment and that \<^verbatim>\<open>typeof\<close>: so for \<^verbatim>\<open>undefined\<close>, every other primitive
  and a function. If the value is an object, of whatever kind, the loop goes on inside
  it.
\<close>

theorem navigate_existing_key:
  assumes "hasProperty h cur (propertyKey seg)"
  shows "(typeof (getV h cur (propertyKey seg)) \<noteq> TObject \<or> getV h cur (propertyKey seg) = VNull
            \<longrightarrow> navigate E h cur (seg # rest) lst
                  = (h, Inl (StructuralConflict seg (typeof (getV h cur (propertyKey seg))))))
       \<and> (\<forall>a. getV h cur (propertyKey seg) = VObject a
            \<longrightarrow> navigate E h cur (seg # rest) lst = navigate E h a rest lst)"
  using assms by (cases "getV h cur (propertyKey seg)") (simp_all add: Let_def)

theorem navigate_existing_key_witness:
  "hasProperty leafHeap 2 (propertyKey (Name (str ''user'')))
   \<and> typeof (getV leafHeap 2 (propertyKey (Name (str ''user'')))) \<noteq> TObject
   \<and> navigate refuse leafHeap 2 [Name (str ''user'')] (Name (str ''name''))
       = (leafHeap, Inl (StructuralConflict (Name (str ''user'')) TString))
   \<and> hasProperty fileHeap 5 (propertyKey (Name (str ''f'')))
   \<and> getV fileHeap 5 (propertyKey (Name (str ''f''))) = VObject 4
   \<and> navigate refuse fileHeap 5 [Name (str ''f'')] (Name (str ''x''))
       = navigate refuse fileHeap 4 [] (Name (str ''x''))"
proof -
  have h1: "hasProperty leafHeap 2 (propertyKey (Name (str ''user'')))"
    by code_simp
  have t1: "typeof (getV leafHeap 2 (propertyKey (Name (str ''user'')))) = TString"
    by code_simp
  have h2: "hasProperty fileHeap 5 (propertyKey (Name (str ''f'')))"
    by code_simp
  have g2: "getV fileHeap 5 (propertyKey (Name (str ''f''))) = VObject 4"
    by code_simp
  from navigate_existing_key [OF h1, where E = refuse and rest = "[]" and lst = "Name (str ''name'')"] t1
  have 1: "navigate refuse leafHeap 2 [Name (str ''user'')] (Name (str ''name''))
       = (leafHeap, Inl (StructuralConflict (Name (str ''user'')) TString))"
    by simp
  from navigate_existing_key [OF h2, where E = refuse and rest = "[]" and lst = "Name (str ''x'')"] g2
  have 2: "navigate refuse fileHeap 5 [Name (str ''f'')] (Name (str ''x''))
       = navigate refuse fileHeap 4 [] (Name (str ''x''))"
    by blast
  from h1 t1 1 h2 g2 2 show ?thesis by simp
qed

text \<open>
  C3 as the spec states it fails for a value that is an object without being a plain
  object or an array. The handle of a file is one: under the key \<^verbatim>\<open>f\<close> it is navigated
  through, \<^verbatim>\<open>setPath(root, "f.x", "v")\<close> returns normally and the handle has the property
  \<^verbatim>\<open>x\<close> afterwards.
\<close>

theorem navigate_existing_key_counterexample:
  "getV fileHeap 5 (str ''f'') = VObject 4
   \<and> \<not> isArray (fileHeap ! 4)
   \<and> prototype (fileHeap ! 4) \<noteq> Some ObjectPrototype
   \<and> snd (setPath refuse fileHeap 5 (str ''f.x'') (VString (str ''v''))) = Inr 5
   \<and> getV (fst (setPath refuse fileHeap 5 (str ''f.x'') (VString (str ''v'')))) 4 (str ''x'')
       = VString (str ''v'')"
  by code_simp

section \<open>Creating the container for a missing key\<close>



section \<open>What a failing call leaves behind\<close>




section \<open>Aggregation\<close>







section \<open>Backfill of a dotted declared key\<close>

text \<open>
  C6. The presence check of the backfill asks whether the declared key, as the literal
  string, is a property of the result. When it is not, and the parsed path leads to an
  object that already has a value under the last segment, the backfill calls
  \<^verbatim>\<open>setPath\<close> all the same and the value under the last segment is \<^verbatim>\<open>undefined\<close>
  afterwards.
\<close>

theorem backfill_overwrites_nested_leaf:
  assumes "\<not> hasProperty h result key"
      and "stringToPathArray key = leadingSegments @ [lastSegment]"
      and "navigate E h result leadingSegments lastSegment = (h1, Inr currentObject)"
      and "currentObject < length h1"
      and "map_of (properties (h1 ! currentObject)) (propertyKey lastSegment) = Some (Data old)"
      and "\<not> (isArray (h1 ! currentObject) \<and> propertyKey lastSegment = lengthKey)"
  shows "backfill E h result [key]
           = (defineOwn h1 currentObject (propertyKey lastSegment) VUndefined, Inr result)
       \<and> getV (defineOwn h1 currentObject (propertyKey lastSegment) VUndefined) currentObject
             (propertyKey lastSegment) = VUndefined"
proof -
  let ?k = "propertyKey lastSegment"
  from assms(4) obtain n where n: "length h1 = Suc n" by (cases "length h1") auto
  with assms(4,5) have "findSlot (length h1) h1 currentObject ?k = Some (Data old)" by simp
  with assms(6) have "putV E h1 currentObject ?k VUndefined
      = (defineOwn h1 currentObject ?k VUndefined, None)"
    by (auto simp: putV_def)
  with assms(2,3) have "setPath E h result key VUndefined
      = (defineOwn h1 currentObject ?k VUndefined, Inr result)"
    by (simp add: setPath_def setPathSegments_def)
  with assms(1) have "backfill E h result [key]
      = (defineOwn h1 currentObject ?k VUndefined, Inr result)"
    by simp
  moreover have "getV (defineOwn h1 currentObject ?k VUndefined) currentObject ?k = VUndefined"
    using assms(4) by (rule getV_defineOwn)
  ultimately show ?thesis by blast
qed

theorem backfill_overwrites_nested_leaf_witness:
  "\<not> hasProperty populated 2 (str ''address.street'')
   \<and> stringToPathArray (str ''address.street'') = [Name (str ''address'')] @ [Name (str ''street'')]
   \<and> navigate refuse populated 2 [Name (str ''address'')] (Name (str ''street'')) = (populated, Inr 3)
   \<and> 3 < length populated
   \<and> map_of (properties (populated ! 3)) (propertyKey (Name (str ''street'')))
       = Some (Data (VString (str ''X'')))
   \<and> \<not> (isArray (populated ! 3) \<and> propertyKey (Name (str ''street'')) = lengthKey)
   \<and> getV (fst (backfill refuse populated 2 [str ''address.street''])) 3 (str ''street'') = VUndefined
   \<and> outcome (formData refuse realm [str ''address.street'']
        [(str ''address.street'', VString (str ''X'')), (str ''address.city'', VString (str ''Y''))])
      = Inr (Tree False
          [(str ''address'',
              Tree False [(str ''street'', Leaf VUndefined), (str ''city'', Leaf (VString (str ''Y'')))])])"
proof -
  have a1: "\<not> hasProperty populated 2 (str ''address.street'')" by code_simp
  have a2: "stringToPathArray (str ''address.street'') = [Name (str ''address'')] @ [Name (str ''street'')]"
    by code_simp
  have a3: "navigate refuse populated 2 [Name (str ''address'')] (Name (str ''street'')) = (populated, Inr 3)"
    by code_simp
  have a4: "3 < length populated" by code_simp
  have a5: "map_of (properties (populated ! 3)) (propertyKey (Name (str ''street'')))
       = Some (Data (VString (str ''X'')))"
    by code_simp
  have a6: "\<not> (isArray (populated ! 3) \<and> propertyKey (Name (str ''street'')) = lengthKey)"
    by code_simp
  have k: "propertyKey (Name (str ''street'')) = str ''street''"
    by (simp add: propertyKey_def)
  have f: "outcome (formData refuse realm [str ''address.street'']
        [(str ''address.street'', VString (str ''X'')), (str ''address.city'', VString (str ''Y''))])
      = Inr (Tree False
          [(str ''address'',
              Tree False [(str ''street'', Leaf VUndefined), (str ''city'', Leaf (VString (str ''Y'')))])])"
    by code_simp
  from backfill_overwrites_nested_leaf [OF a1 a2 a3 a4 a5 a6] k
  have "getV (fst (backfill refuse populated 2 [str ''address.street''])) 3 (str ''street'') = VUndefined"
    by simp
  with a1 a2 a3 a4 a5 a6 f show ?thesis by blast
qed

section \<open>Rendering and parsing again\<close>






lemma restMatches_Nil [simp]: "restMatches []"
  by (simp add: restMatches_def)

lemma restMatches_Cons [simp]: "restMatches (c # cs) \<longleftrightarrow> \<not> isLineTerminator c \<and> restMatches cs"
  by (simp add: restMatches_def)

lemma restMatches_append [simp]: "restMatches (xs @ ys) \<longleftrightarrow> restMatches xs \<and> restMatches ys"
  by (simp add: restMatches_def)

lemma not_lineTerminator [simp]:
  "\<not> isLineTerminator DOT" "\<not> isLineTerminator LBRACKET" "\<not> isLineTerminator RBRACKET"
  by (simp_all add: isLineTerminator_def DOT_def LBRACKET_def RBRACKET_def)

lemma not_nameUnit [simp]: "\<not> isNameUnit DOT" "\<not> isNameUnit LBRACKET" "\<not> isNameUnit RBRACKET"
  by (simp_all add: isNameUnit_def)

















end
